theory Spec2Isabelle
  imports Main
begin

section \<open>Strings and paths\<close>

text \<open>
  Go strings are byte sequences; they are modelled as \<^typ>\<open>string\<close>.  The path
  functions are those of \<^verbatim>\<open>path/filepath\<close> on a Unix host (separator \<^verbatim>\<open>/\<close>, no
  volume names).
\<close>

type_synonym err = string

text \<open>\<^verbatim>\<open>strings.Replace(s, ".", "_", 1)\<close>: the first dot of \<open>s\<close>, wherever it is.\<close>

fun replace_first_dot :: "string \<Rightarrow> string" where
  "replace_first_dot [] = []"
| "replace_first_dot (c # cs) =
     (if c = CHR ''.'' then CHR ''_'' # cs else c # replace_first_dot cs)"

text \<open>
  \<^verbatim>\<open>filepath.Base\<close>: the empty path gives a dot; trailing separators are stripped;
  the last element is kept; a path of separators only gives the separator.
\<close>

definition strip_trailing_sep :: "string \<Rightarrow> string" where
  "strip_trailing_sep p = rev (dropWhile (\<lambda>c. c = CHR ''/'') (rev p))"

definition last_element :: "string \<Rightarrow> string" where
  "last_element p = rev (takeWhile (\<lambda>c. c \<noteq> CHR ''/'') (rev p))"

definition Base :: "string \<Rightarrow> string" where
  "Base path =
     (if path = [] then ''.''
      else (let p = last_element (strip_trailing_sep path)
            in if p = [] then ''/'' else p))"

text \<open>
  \<^verbatim>\<open>filepath.Ext\<close> scans from the end of the path down to the last separator and
  returns the suffix that starts at the first dot it meets, or the empty string.
  \<open>ext_scan\<close> is that loop on the reversed path; its second argument is the suffix
  already passed.
\<close>

fun ext_scan :: "string \<Rightarrow> string \<Rightarrow> string" where
  "ext_scan [] suffix = []"
| "ext_scan (c # cs) suffix =
     (if c = CHR ''/'' then []
      else if c = CHR ''.'' then c # suffix
      else ext_scan cs (c # suffix))"

definition Ext :: "string \<Rightarrow> string" where
  "Ext path = ext_scan (rev path) []"

text \<open>
  \<^verbatim>\<open>strings.ToLower\<close> on ASCII text: the letters A to Z are mapped to a to z and
  every other byte is kept.  (File names outside ASCII are not modelled.)
\<close>

definition toLower_char :: "char \<Rightarrow> char" where
  "toLower_char c =
     (let n = (of_char c :: nat) in if 65 \<le> n \<and> n \<le> 90 then char_of (n + 32) else c)"

definition ToLower :: "string \<Rightarrow> string" where
  "ToLower s = map toLower_char s"

text \<open>
  \<^verbatim>\<open>filepath.Join(path, name)\<close> as \<^verbatim>\<open>filepath.Walk\<close> uses it, for a directory path
  that is already clean and does not end in a separator, and a name read from that
  directory: the two joined by one separator.
\<close>

definition Join :: "string \<Rightarrow> string \<Rightarrow> string" where
  "Join path name = path @ ''/'' @ name"

section \<open>The file discoverer: \<^verbatim>\<open>FindHeicFiles\<close>\<close>

text \<open>
  What \<^verbatim>\<open>filepath.Walk\<close> can see at a path.  \<open>File\<close> is any entry whose
  \<^verbatim>\<open>Lstat\<close> succeeds and which is not a directory; \<open>Dir\<close> is a directory whose
  names could be read, with its entries in the order \<^verbatim>\<open>Walk\<close> visits them (sorted by
  name); \<open>DirUnreadable\<close> is a directory whose names could not be read;
  \<open>LstatFails\<close> is an entry on which \<^verbatim>\<open>Lstat\<close> fails.  Every node carries the name
  \<^verbatim>\<open>info.Name()\<close> reports for it.
\<close>

datatype fsnode =
    File string
  | Dir string "fsnode list"
  | DirUnreadable string err
  | LstatFails string err

fun node_name :: "fsnode \<Rightarrow> string" where
  "node_name (File n) = n"
| "node_name (Dir n cs) = n"
| "node_name (DirUnreadable n e) = n"
| "node_name (LstatFails n e) = n"

text \<open>
  The callback of \<^verbatim>\<open>FindHeicFiles\<close> (main.go, lines 134 to 142), with the slice
  \<^verbatim>\<open>heicFiles\<close> it appends to passed in and out.
\<close>

definition visit :: "string list \<Rightarrow> string \<Rightarrow> string \<Rightarrow> err option \<Rightarrow> string list \<times> err option" where
  "visit heicFiles path name err =
     (case err of
        Some e \<Rightarrow> (heicFiles, Some e)
      | None \<Rightarrow>
          (if Ext (ToLower name) = ''.heic'' then (heicFiles @ [path], None)
           else (heicFiles, None)))"

text \<open>
  \<^verbatim>\<open>filepath.Walk\<close> with that callback.  The callback is called on every entry,
  directories included, before a directory's entries are walked; a non-nil result of
  the callback ends the walk.
\<close>

fun walk :: "string \<Rightarrow> fsnode \<Rightarrow> string list \<Rightarrow> string list \<times> err option"
  and walk_children :: "string \<Rightarrow> fsnode list \<Rightarrow> string list \<Rightarrow> string list \<times> err option"
where
  "walk path (File n) acc = visit acc path n None"
| "walk path (Dir n cs) acc =
     (case visit acc path n None of
        (acc', Some e) \<Rightarrow> (acc', Some e)
      | (acc', None) \<Rightarrow> walk_children path cs acc')"
| "walk path (DirUnreadable n e) acc = visit acc path n (Some e)"
| "walk path (LstatFails n e) acc = visit acc path n (Some e)"
| "walk_children path [] acc = (acc, None)"
| "walk_children path (c # cs) acc =
     (case walk (Join path (node_name c)) c acc of
        (acc', Some e) \<Rightarrow> (acc', Some e)
      | (acc', None) \<Rightarrow> walk_children path cs acc')"

definition FindHeicFiles :: "string \<Rightarrow> fsnode \<Rightarrow> string list \<times> err option" where
  "FindHeicFiles directory root = walk directory root []"

section \<open>The conversion worker: \<^verbatim>\<open>convertHeic\<close>\<close>

text \<open>
  The results of the calls a worker makes outside the program, for one source file:
  the codec (\<^verbatim>\<open>heif\<close>), the encoders and the operating system.  \<open>None\<close> is a nil
  error.
\<close>

record extern =
  NewContext :: "err option"
  ReadFromFile :: "err option"
  GetPrimaryImageHandle :: "err option"
  DecodeImage :: "err option"
  GetImage :: "err option"
  jpegEncode :: "err option"
  pngEncode :: "err option"
  WriteFile :: "string \<Rightarrow> err option"
  Remove :: "err option"

text \<open>The lines the program prints, by format string.\<close>

datatype message =
    NumberOfCPUs nat
  | InputFileDoesNotExist string
  | InputDirDoesNotExist string
  | ErrorFindingFiles err
  | EitherMustBeSpecified
  | AllConversionsCompleted
  | CouldNotCreateContext err
  | CouldNotReadFile string err
  | CouldNotGetPrimaryImage err
  | ConvertingFile string
  | CouldNotDecodeImage err
  | CouldNotGetImage err
  | CouldNotEncodeJPEG err
  | CouldNotSaveJPEG string err
  | CouldNotEncodePNG err
  | CouldNotSavePNG string err
  | SavedAs string
  | UnsupportedFormat string
  | FailedToDelete string err
  | DeletedOriginal string

text \<open>
  What a thread does that can be observed: printing, the calls that change or read
  the file system (with their result), and the two operations on the channel
  \<^verbatim>\<open>done\<close> (\<open>Reserve\<close> is the send, \<open>Release\<close> the receive).
\<close>

datatype action =
    Printf message
  | OsWriteFile string "err option"
  | OsRemove string "err option"
  | OsStat string
  | FilepathWalk string
  | Reserve
  | Release

text \<open>\<^verbatim>\<open>saveJPEG\<close> and \<^verbatim>\<open>savePNG\<close> (lines 46 to 72).\<close>

definition saveJPEG :: "extern \<Rightarrow> string \<Rightarrow> int \<Rightarrow> action list" where
  "saveJPEG x filename quality =
     (case jpegEncode x of
        Some e \<Rightarrow> [Printf (CouldNotEncodeJPEG e)]
      | None \<Rightarrow>
          (case WriteFile x filename of
             Some e \<Rightarrow> [OsWriteFile filename (Some e), Printf (CouldNotSaveJPEG filename e)]
           | None \<Rightarrow> [OsWriteFile filename None, Printf (SavedAs filename)]))"

definition savePNG :: "extern \<Rightarrow> string \<Rightarrow> action list" where
  "savePNG x filename =
     (case pngEncode x of
        Some e \<Rightarrow> [Printf (CouldNotEncodePNG e)]
      | None \<Rightarrow>
          (case WriteFile x filename of
             Some e \<Rightarrow> [OsWriteFile filename (Some e), Printf (CouldNotSavePNG filename e)]
           | None \<Rightarrow> [OsWriteFile filename None, Printf (SavedAs filename)]))"

text \<open>The output path without its suffix (lines 103 to 107).\<close>

definition outFilename :: "string \<Rightarrow> string \<Rightarrow> string" where
  "outFilename file outputPath =
     (if outputPath \<noteq> [] then outputPath @ replace_first_dot (Base file)
      else replace_first_dot file)"

text \<open>
  Lines 97 to 118: decode, and in the last branch pick the encoder.  The second
  component is \<open>True\<close> when the function returns from inside the \<^verbatim>\<open>switch\<close>
  (line 116).
\<close>

definition decode_and_save :: "extern \<Rightarrow> string \<Rightarrow> string \<Rightarrow> string \<Rightarrow> int \<Rightarrow> action list \<times> bool" where
  "decode_and_save x file outputPath format quality =
     (case DecodeImage x of
        Some e \<Rightarrow> ([Printf (CouldNotDecodeImage e)], False)
      | None \<Rightarrow>
          (case GetImage x of
             Some e \<Rightarrow> ([Printf (CouldNotGetImage e)], False)
           | None \<Rightarrow>
               (if format = ''jpeg''
                  then (saveJPEG x (outFilename file outputPath @ ''.jpg'') quality, False)
                else if format = ''png''
                  then (savePNG x (outFilename file outputPath @ ''.png''), False)
                else ([Printf (UnsupportedFormat format)], True))))"

text \<open>Lines 120 to 126.\<close>

definition delete_original :: "extern \<Rightarrow> string \<Rightarrow> bool \<Rightarrow> action list" where
  "delete_original x file deleteOriginal =
     (if deleteOriginal
      then (case Remove x of
              Some e \<Rightarrow> [OsRemove file (Some e), Printf (FailedToDelete file e)]
            | None \<Rightarrow> [OsRemove file None, Printf (DeletedOriginal file)])
      else [])"

text \<open>
  How the body of \<^verbatim>\<open>convertHeic\<close> ends: it reaches the receive on \<^verbatim>\<open>done\<close> in
  line 128, or it returns before (lines 82, 88, 93 and 116).
\<close>

datatype exit_path = ReachesRelease | ReturnsEarly

text \<open>
  \<^verbatim>\<open>convertHeic\<close> from line 79 up to, and without, line 128: what the worker does
  between the start signal and the release of its slot.
\<close>

definition convertHeic :: "extern \<Rightarrow> string \<Rightarrow> string \<Rightarrow> string \<Rightarrow> int \<Rightarrow> bool \<Rightarrow> action list \<times> exit_path" where
  "convertHeic x file outputPath format quality deleteOriginal =
     (case NewContext x of
        Some e \<Rightarrow> ([Printf (CouldNotCreateContext e)], ReturnsEarly)
      | None \<Rightarrow>
     (case ReadFromFile x of
        Some e \<Rightarrow> ([Printf (CouldNotReadFile file e)], ReturnsEarly)
      | None \<Rightarrow>
     (case GetPrimaryImageHandle x of
        Some e \<Rightarrow> ([Printf (CouldNotGetPrimaryImage e)], ReturnsEarly)
      | None \<Rightarrow>
     (case decode_and_save x file outputPath format quality of
        (acts, True) \<Rightarrow> (Printf (ConvertingFile file) # acts, ReturnsEarly)
      | (acts, False) \<Rightarrow>
          (Printf (ConvertingFile file) # acts @ delete_original x file deleteOriginal,
           ReachesRelease)))))"

section \<open>The coordinator: \<^verbatim>\<open>main\<close> and its goroutines\<close>

text \<open>The command-line flags (lines 147 to 152).\<close>

record flags =
  inputFile :: string
  inputDir :: string
  outputPath :: string
  deleteOriginal :: bool
  format :: string
  quality :: int

text \<open>
  The host: \<^verbatim>\<open>runtime.NumCPU()\<close>; whether \<^verbatim>\<open>os.Stat\<close> of a path reports that it
  does not exist; what \<^verbatim>\<open>filepath.Walk\<close> sees at a root path (the root node carries
  the base name of that path); and the results of the external calls of the worker
  that converts a given file.
\<close>

record env =
  NumCPU :: nat
  stat_missing :: "string \<Rightarrow> bool"
  lstat :: "string \<Rightarrow> fsnode"
  calls :: "string \<Rightarrow> extern"

text \<open>
  The program is a transition system: the main goroutine and one goroutine for each
  job, interleaved.  A step is one of the statements below; a statement that blocks
  has no step until it can proceed.  Channel operations, \<^verbatim>\<open>WaitGroup\<close> operations
  and the start of a goroutine are atomic, as the Go memory model has them.

  Program points of \<^verbatim>\<open>main\<close>:
  \<^item> \<open>M_Begin\<close>: lines 156 to 166 or 171 to 177 or 186, up to the first statement
    that touches the shared state;
  \<^item> \<open>M_SingleAdd\<close>, \<open>M_SingleReserve\<close>, \<open>M_SingleGo\<close>: lines 167, 168, 169;
  \<^item> \<open>M_DirLoop\<close>: the head of the loop in line 178 and \<^verbatim>\<open>wg.Add(1)\<close> in line 179;
  \<^item> \<open>M_DirGo\<close>: the \<^verbatim>\<open>go\<close> statement of line 180;
  \<^item> \<open>M_Close\<close>: line 189; \<open>M_Wait\<close>: line 190 and 192; \<open>M_Finished\<close>: main has
    returned.

  Program points of a worker goroutine:
  \<^item> \<open>W_Reserve\<close>: the send of line 181 (directory mode only);
  \<^item> \<open>W_AwaitStart\<close>: the receive from \<^verbatim>\<open>start\<close> in line 77, after the \<^verbatim>\<open>defer\<close>;
  \<^item> \<open>W_Body\<close>: lines 79 to 126;
  \<^item> \<open>W_Release\<close>: the receive from \<^verbatim>\<open>done\<close> in line 128;
  \<^item> \<open>W_Finished\<close>: the function has returned and the deferred \<^verbatim>\<open>wg.Done()\<close>
    has run.

  The body of a worker is one step: between the start signal and line 128 a worker
  touches none of the shared variables, and its calls to the codec, the encoders
  and the operating system are recorded in the trace with the results the host
  gives them.

  The loop variable \<^verbatim>\<open>file\<close> is taken per iteration (Go 1.22 and later), so each
  goroutine converts the file of the iteration that started it.
\<close>

datatype mpc =
    M_Begin | M_SingleAdd | M_SingleReserve | M_SingleGo
  | M_DirLoop | M_DirGo | M_Close | M_Wait | M_Finished

datatype wpc = W_Reserve | W_AwaitStart | W_Body | W_Release | W_Finished

datatype tid = MainT | WorkerT nat

record worker =
  wfile :: string
  wpc :: wpc

text \<open>
  The shared state: \<open>files\<close> is what is left of the range of the loop in line 178,
  \<open>done_len\<close> the number of elements in the buffered channel \<^verbatim>\<open>done\<close> (capacity
  \<open>NumCPU\<close>), \<open>start_closed\<close> whether \<^verbatim>\<open>start\<close> has been closed, \<open>wg\<close> the counter
  of the \<^verbatim>\<open>WaitGroup\<close>, and \<open>trace\<close> the actions so far, oldest first.
\<close>

record state =
  mpc :: mpc
  files :: "string list"
  workers :: "worker list"
  done_len :: nat
  start_closed :: bool
  wg :: int
  trace :: "(tid \<times> action) list"

definition init :: state where
  "init = \<lparr>mpc = M_Begin, files = [], workers = [], done_len = 0,
           start_closed = False, wg = 0, trace = []\<rparr>"

definition emit :: "tid \<Rightarrow> action list \<Rightarrow> state \<Rightarrow> state" where
  "emit t acts s = s\<lparr>trace := trace s @ map (Pair t) acts\<rparr>"

definition spawn :: "string \<Rightarrow> wpc \<Rightarrow> state \<Rightarrow> state" where
  "spawn file pc s = s\<lparr>workers := workers s @ [\<lparr>wfile = file, wpc = pc\<rparr>]\<rparr>"

definition set_wpc :: "nat \<Rightarrow> wpc \<Rightarrow> state \<Rightarrow> state" where
  "set_wpc i pc s = s\<lparr>workers := (workers s)[i := (workers s ! i)\<lparr>wpc := pc\<rparr>]\<rparr>"

definition main_begin :: "env \<Rightarrow> flags \<Rightarrow> state \<Rightarrow> state" where
  "main_begin en fl s =
     (if inputFile fl \<noteq> [] then
        emit MainT
          ([Printf (NumberOfCPUs (NumCPU en)), OsStat (inputFile fl)] @
           (if stat_missing en (inputFile fl)
            then [Printf (InputFileDoesNotExist (inputFile fl))] else []))
          (s\<lparr>mpc := M_SingleAdd\<rparr>)
      else if inputDir fl \<noteq> [] then
        (case FindHeicFiles (inputDir fl) (lstat en (inputDir fl)) of
           (found, err) \<Rightarrow>
             emit MainT
               ([Printf (NumberOfCPUs (NumCPU en)), OsStat (inputDir fl)] @
                (if stat_missing en (inputDir fl)
                 then [Printf (InputDirDoesNotExist (inputDir fl))] else []) @
                [FilepathWalk (inputDir fl)] @
                (case err of Some e \<Rightarrow> [Printf (ErrorFindingFiles e)] | None \<Rightarrow> []))
               (s\<lparr>mpc := M_DirLoop, files := found\<rparr>))
      else
        emit MainT [Printf (NumberOfCPUs (NumCPU en)), Printf EitherMustBeSpecified]
          (s\<lparr>mpc := M_Close\<rparr>))"

definition main_step :: "env \<Rightarrow> flags \<Rightarrow> state \<Rightarrow> state option" where
  "main_step en fl s =
     (case mpc s of
        M_Begin \<Rightarrow> Some (main_begin en fl s)
      | M_SingleAdd \<Rightarrow> Some (s\<lparr>mpc := M_SingleReserve, wg := wg s + 1\<rparr>)
      | M_SingleReserve \<Rightarrow>
          (if done_len s < NumCPU en
           then Some (emit MainT [Reserve] (s\<lparr>mpc := M_SingleGo, done_len := done_len s + 1\<rparr>))
           else None)
      | M_SingleGo \<Rightarrow> Some (spawn (inputFile fl) W_AwaitStart (s\<lparr>mpc := M_Close\<rparr>))
      | M_DirLoop \<Rightarrow>
          (case files s of
             [] \<Rightarrow> Some (s\<lparr>mpc := M_Close\<rparr>)
           | file # rest \<Rightarrow> Some (s\<lparr>mpc := M_DirGo, wg := wg s + 1\<rparr>))
      | M_DirGo \<Rightarrow>
          (case files s of
             [] \<Rightarrow> None
           | file # rest \<Rightarrow> Some (spawn file W_Reserve (s\<lparr>mpc := M_DirLoop, files := rest\<rparr>)))
      | M_Close \<Rightarrow> Some (s\<lparr>mpc := M_Wait, start_closed := True\<rparr>)
      | M_Wait \<Rightarrow>
          (if wg s = 0
           then Some (emit MainT [Printf AllConversionsCompleted] (s\<lparr>mpc := M_Finished\<rparr>))
           else None)
      | M_Finished \<Rightarrow> None)"

definition worker_step :: "env \<Rightarrow> flags \<Rightarrow> nat \<Rightarrow> state \<Rightarrow> state option" where
  "worker_step en fl i s =
     (if length (workers s) \<le> i \<or> mpc s = M_Finished then None
      else
        (case wpc (workers s ! i) of
           W_Reserve \<Rightarrow>
             (if done_len s < NumCPU en
              then Some (emit (WorkerT i) [Reserve]
                           (set_wpc i W_AwaitStart (s\<lparr>done_len := done_len s + 1\<rparr>)))
              else None)
         | W_AwaitStart \<Rightarrow> (if start_closed s then Some (set_wpc i W_Body s) else None)
         | W_Body \<Rightarrow>
             (case convertHeic (calls en (wfile (workers s ! i))) (wfile (workers s ! i))
                     (outputPath fl) (format fl) (quality fl) (deleteOriginal fl) of
                (acts, ReachesRelease) \<Rightarrow>
                  Some (emit (WorkerT i) acts (set_wpc i W_Release s))
              | (acts, ReturnsEarly) \<Rightarrow>
                  Some (emit (WorkerT i) acts (set_wpc i W_Finished (s\<lparr>wg := wg s - 1\<rparr>))))
         | W_Release \<Rightarrow>
             (if 0 < done_len s
              then Some (emit (WorkerT i) [Release]
                           (set_wpc i W_Finished (s\<lparr>done_len := done_len s - 1, wg := wg s - 1\<rparr>)))
              else None)
         | W_Finished \<Rightarrow> None))"

fun step :: "env \<Rightarrow> flags \<Rightarrow> tid \<Rightarrow> state \<Rightarrow> state option" where
  "step en fl MainT s = main_step en fl s"
| "step en fl (WorkerT i) s = worker_step en fl i s"

text \<open>
  A run under a schedule: the list of the goroutines that take the next step, in
  order.  It is \<open>None\<close> when the schedule names a goroutine that cannot step.
\<close>

fun run :: "env \<Rightarrow> flags \<Rightarrow> tid list \<Rightarrow> state \<Rightarrow> state option" where
  "run en fl [] s = Some s"
| "run en fl (t # ts) s =
     (case step en fl t s of None \<Rightarrow> None | Some s' \<Rightarrow> run en fl ts s')"

text \<open>Observations of a state.\<close>

definition count_action :: "action \<Rightarrow> state \<Rightarrow> nat" where
  "count_action a s = length (filter (\<lambda>ta. snd ta = a) (trace s))"

definition actions_of :: "tid \<Rightarrow> state \<Rightarrow> action list" where
  "actions_of t s = map snd (filter (\<lambda>ta. fst ta = t) (trace s))"

definition pcs :: "state \<Rightarrow> wpc list" where
  "pcs s = map wpc (workers s)"

definition jobs :: "state \<Rightarrow> string list" where
  "jobs s = map wfile (workers s)"

text \<open>
  A worker is executing the decode and encode body when it is past the start signal
  and has not yet released its slot.
\<close>

definition in_body :: "wpc \<Rightarrow> bool" where
  "in_body pc = (pc = W_Body \<or> pc = W_Release)"

definition executing :: "state \<Rightarrow> nat" where
  "executing s = length (filter in_body (pcs s))"

section \<open>Example inputs\<close>

text \<open>External calls that all succeed, and three that fail at one call.\<close>

definition all_succeed :: extern where
  "all_succeed = \<lparr>NewContext = None, ReadFromFile = None, GetPrimaryImageHandle = None,
     DecodeImage = None, GetImage = None, jpegEncode = None, pngEncode = None,
     WriteFile = (\<lambda>p. None), Remove = None\<rparr>"

definition read_fails :: extern where
  "read_fails = all_succeed\<lparr>ReadFromFile := Some ''not a HEIC file''\<rparr>"

definition decode_fails :: extern where
  "decode_fails = all_succeed\<lparr>DecodeImage := Some ''bad data''\<rparr>"

definition write_fails :: extern where
  "write_fails = all_succeed\<lparr>WriteFile := (\<lambda>p. Some ''read-only file system'')\<rparr>"

text \<open>
  A host with \<open>n\<close> CPUs on which every path exists, \<^verbatim>\<open>Walk\<close> sees \<open>root\<close>, and the
  external calls of every job go as \<open>x\<close> says.
\<close>

definition host :: "nat \<Rightarrow> fsnode \<Rightarrow> extern \<Rightarrow> env" where
  "host n root x =
     \<lparr>NumCPU = n, stat_missing = (\<lambda>p. False), lstat = (\<lambda>p. root), calls = (\<lambda>f. x)\<rparr>"

text \<open>
  A command line with the given \<^verbatim>\<open>--input_file\<close>, \<^verbatim>\<open>--input_dir\<close> and
  \<^verbatim>\<open>--format\<close>, and the defaults for the other flags.
\<close>

definition cli :: "string \<Rightarrow> string \<Rightarrow> string \<Rightarrow> flags" where
  "cli file dir fmt =
     \<lparr>inputFile = file, inputDir = dir, outputPath = [], deleteOriginal = False,
      format = fmt, quality = 80\<rparr>"

text \<open>
  A directory \<^verbatim>\<open>d\<close> with a source file, a subdirectory that cannot be read, and a
  second source file after it.
\<close>

definition denied_tree :: fsnode where
  "denied_tree =
     Dir ''d'' [File ''a.heic'', DirUnreadable ''p'' ''permission denied'', File ''z.heic'']"

text \<open>A directory \<^verbatim>\<open>d\<close> that holds a subdirectory whose name ends in \<^verbatim>\<open>.heic\<close>.\<close>

definition album_tree :: fsnode where
  "album_tree = Dir ''d'' [File ''a.HEIC'', Dir ''album.heic'' [File ''b.txt''], File ''c.txt'']"

text \<open>A directory \<^verbatim>\<open>d\<close> with two source files.\<close>

definition two_files_tree :: fsnode where
  "two_files_tree = Dir ''d'' [File ''a.heic'', File ''b.heic'']"


definition to_barrier :: "tid list" where
  "to_barrier = [MainT, MainT, MainT, MainT, MainT]"

definition into_body :: "tid list" where
  "into_body = to_barrier @ [WorkerT 0, WorkerT 0]"


definition single_complete :: "tid list" where
  "single_complete = to_barrier @ [WorkerT 0, WorkerT 0, WorkerT 0, MainT]"

definition single_early :: "tid list" where
  "single_early = to_barrier @ [WorkerT 0, WorkerT 0, MainT]"

definition first_returns_early :: "tid list" where
  "first_returns_early =
     [MainT, MainT, MainT, MainT, MainT, MainT, MainT, WorkerT 0, WorkerT 0, WorkerT 0]"

section \<open>Invariants of the coordinator\<close>

text \<open>The jobs \<^verbatim>\<open>main\<close> launches: the single file, or what the discoverer returned.\<close>

definition job_list :: "env \<Rightarrow> flags \<Rightarrow> string list" where
  "job_list en fl =
     (if inputFile fl \<noteq> [] then [inputFile fl]
      else if inputDir fl \<noteq> [] then fst (FindHeicFiles (inputDir fl) (lstat en (inputDir fl)))
      else [])"

text \<open>
  A worker holds a slot from its reservation until it releases it or returns.  The
  channel holds at least one element for each such worker, one more while \<^verbatim>\<open>main\<close>
  is between lines 168 and 169, and never more than its capacity.
\<close>

definition holds_slot :: "wpc \<Rightarrow> bool" where
  "holds_slot pc = (pc = W_AwaitStart \<or> pc = W_Body \<or> pc = W_Release)"

definition slot_inv :: "env \<Rightarrow> state \<Rightarrow> bool" where
  "slot_inv en s =
     (length (filter holds_slot (pcs s)) + (if mpc s = M_SingleGo then 1 else 0) \<le> done_len s
      \<and> done_len s \<le> NumCPU en)"

text \<open>Where \<^verbatim>\<open>main\<close> is, which jobs are launched and whether \<^verbatim>\<open>start\<close> is closed.\<close>

definition launch_inv :: "env \<Rightarrow> flags \<Rightarrow> state \<Rightarrow> bool" where
  "launch_inv en fl s =
     (case mpc s of
        M_Begin \<Rightarrow> jobs s = [] \<and> files s = [] \<and> \<not> start_closed s
      | M_SingleAdd \<Rightarrow> jobs s = [] \<and> files s = [] \<and> \<not> start_closed s \<and> inputFile fl \<noteq> []
      | M_SingleReserve \<Rightarrow> jobs s = [] \<and> files s = [] \<and> \<not> start_closed s \<and> inputFile fl \<noteq> []
      | M_SingleGo \<Rightarrow> jobs s = [] \<and> files s = [] \<and> \<not> start_closed s \<and> inputFile fl \<noteq> []
      | M_DirLoop \<Rightarrow> jobs s @ files s = job_list en fl \<and> \<not> start_closed s \<and> inputFile fl = []
      | M_DirGo \<Rightarrow> jobs s @ files s = job_list en fl \<and> files s \<noteq> [] \<and> \<not> start_closed s
                     \<and> inputFile fl = []
      | M_Close \<Rightarrow> jobs s = job_list en fl \<and> files s = [] \<and> \<not> start_closed s
      | M_Wait \<Rightarrow> jobs s = job_list en fl \<and> files s = [] \<and> start_closed s
      | M_Finished \<Rightarrow> jobs s = job_list en fl \<and> files s = [] \<and> start_closed s)"

text \<open>
  Workers of the single-file mode never stand at the send of line 181, and a worker
  is past the start signal only when \<^verbatim>\<open>start\<close> is closed.
\<close>

definition pc_inv :: "flags \<Rightarrow> state \<Rightarrow> bool" where
  "pc_inv fl s =
     ((inputFile fl \<noteq> [] \<longrightarrow> W_Reserve \<notin> set (pcs s)) \<and>
      (\<forall>pc\<in>set (pcs s). in_body pc \<longrightarrow> start_closed s))"

text \<open>
  Who has sent on \<^verbatim>\<open>done\<close>: in single-file mode \<^verbatim>\<open>main\<close>, once it is past line
  168; in directory mode every worker that is past line 181.
\<close>

definition reserve_inv :: "flags \<Rightarrow> state \<Rightarrow> bool" where
  "reserve_inv fl s =
     ((inputFile fl \<noteq> [] \<longrightarrow> mpc s \<noteq> M_Begin \<longrightarrow> mpc s \<noteq> M_SingleAdd \<longrightarrow>
         mpc s \<noteq> M_SingleReserve \<longrightarrow> (MainT, Reserve) \<in> set (trace s)) \<and>
      (inputFile fl = [] \<longrightarrow>
         (\<forall>i<length (workers s). wpc (workers s ! i) \<noteq> W_Reserve \<longrightarrow>
            (WorkerT i, Reserve) \<in> set (trace s))))"


text \<open>In single-file mode nobody walks a directory.\<close>

definition nowalk_inv :: "flags \<Rightarrow> state \<Rightarrow> bool" where
  "nowalk_inv fl s = (inputFile fl \<noteq> [] \<longrightarrow> (\<forall>t p. (t, FilepathWalk p) \<notin> set (trace s)))"

text \<open>The actions of a worker's body: printing, writing a file, removing a file.\<close>

definition is_io :: "action \<Rightarrow> bool" where
  "is_io a =
     (case a of
        Printf m \<Rightarrow> True | OsWriteFile p r \<Rightarrow> True | OsRemove p r \<Rightarrow> True | _ \<Rightarrow> False)"

section \<open>Steps and runs\<close>

text \<open>A property that holds at the start and is kept by every step holds after every run.\<close>

lemma run_invariant:
  assumes "\<And>s t s'. I s \<Longrightarrow> step en fl t s = Some s' \<Longrightarrow> I s'"
    and "I s0" and "run en fl sched s0 = Some s"
  shows "I s"
  using assms(2,3)
proof (induction sched arbitrary: s0)
  case Nil
  then show ?case by simp
next
  case (Cons t ts)
  then show ?case using assms(1) by (auto split: option.splits)
qed

subsection \<open>What the updates of the state leave alone\<close>

lemma pcs_set_wpc: "pcs (set_wpc i pc s) = (pcs s)[i := pc]"
  by (simp add: pcs_def set_wpc_def map_update)

lemma pcs_nth: "i < length (workers s) \<Longrightarrow> pcs s ! i = wpc (workers s ! i)"
  by (simp add: pcs_def)

lemma length_pcs: "length (pcs s) = length (workers s)"
  by (simp add: pcs_def)

lemma jobs_set_wpc: "jobs (set_wpc i pc s) = jobs s"
proof -
  have "map wfile ((workers s)[i := (workers s ! i)\<lparr>wpc := pc\<rparr>]) = map wfile (workers s)"
    by (cases "i < length (workers s)") (auto simp: nth_list_update intro!: nth_equalityI)
  then show ?thesis by (simp add: jobs_def set_wpc_def)
qed

lemma workers_set_wpc_nth:
  "j < length (workers s) \<Longrightarrow>
   wpc (workers (set_wpc i pc s) ! j) = (if j = i then pc else wpc (workers s ! j))"
  by (simp add: set_wpc_def nth_list_update)

lemma emit_fields:
  "mpc (emit t a s) = mpc s" "files (emit t a s) = files s"
  "workers (emit t a s) = workers s" "done_len (emit t a s) = done_len s"
  "start_closed (emit t a s) = start_closed s" "wg (emit t a s) = wg s"
  "trace (emit t a s) = trace s @ map (Pair t) a"
  "pcs (emit t a s) = pcs s" "jobs (emit t a s) = jobs s"
  by (simp_all add: emit_def pcs_def jobs_def)

lemma set_wpc_fields:
  "mpc (set_wpc i pc s) = mpc s" "files (set_wpc i pc s) = files s"
  "done_len (set_wpc i pc s) = done_len s"
  "start_closed (set_wpc i pc s) = start_closed s" "wg (set_wpc i pc s) = wg s"
  "trace (set_wpc i pc s) = trace s"
  "length (workers (set_wpc i pc s)) = length (workers s)"
  by (simp_all add: set_wpc_def)

lemma pcs_upd:
  "pcs (s\<lparr>done_len := d\<rparr>) = pcs s" "pcs (s\<lparr>wg := w\<rparr>) = pcs s"
  by (simp_all add: pcs_def)

lemma jobs_upd:
  "jobs (s\<lparr>done_len := d\<rparr>) = jobs s" "jobs (s\<lparr>wg := w\<rparr>) = jobs s"
  by (simp_all add: jobs_def)

lemmas frame_simps =
  emit_fields set_wpc_fields pcs_set_wpc jobs_set_wpc pcs_upd jobs_upd

subsection \<open>The steps of a worker\<close>

text \<open>The five steps a worker can take, with the state each one leads to.\<close>

lemma worker_step_cases:
  assumes "worker_step en fl i s = Some s'"
  obtains
    (reserve) "i < length (workers s)" "wpc (workers s ! i) = W_Reserve" "done_len s < NumCPU en"
      "s' = emit (WorkerT i) [Reserve] (set_wpc i W_AwaitStart (s\<lparr>done_len := done_len s + 1\<rparr>))"
  | (start) "i < length (workers s)" "wpc (workers s ! i) = W_AwaitStart" "start_closed s"
      "s' = set_wpc i W_Body s"
  | (body) acts where "i < length (workers s)" "wpc (workers s ! i) = W_Body"
      "convertHeic (calls en (wfile (workers s ! i))) (wfile (workers s ! i))
         (outputPath fl) (format fl) (quality fl) (deleteOriginal fl) = (acts, ReachesRelease)"
      "s' = emit (WorkerT i) acts (set_wpc i W_Release s)"
  | (early) acts where "i < length (workers s)" "wpc (workers s ! i) = W_Body"
      "convertHeic (calls en (wfile (workers s ! i))) (wfile (workers s ! i))
         (outputPath fl) (format fl) (quality fl) (deleteOriginal fl) = (acts, ReturnsEarly)"
      "s' = emit (WorkerT i) acts (set_wpc i W_Finished (s\<lparr>wg := wg s - 1\<rparr>))"
  | (release) "i < length (workers s)" "wpc (workers s ! i) = W_Release" "0 < done_len s"
      "s' = emit (WorkerT i) [Release]
              (set_wpc i W_Finished (s\<lparr>done_len := done_len s - 1, wg := wg s - 1\<rparr>))"
proof -
  from assms have i: "i < length (workers s)" and nf: "mpc s \<noteq> M_Finished"
    by (auto simp: worker_step_def split: if_splits)
  show thesis
  proof (cases "wpc (workers s ! i)")
    case W_Reserve
    with assms i nf show ?thesis
      by (intro reserve) (auto simp: worker_step_def split: if_splits)
  next
    case W_AwaitStart
    with assms i nf show ?thesis
      by (intro start) (auto simp: worker_step_def split: if_splits)
  next
    case W_Body
    obtain acts ex where c:
      "convertHeic (calls en (wfile (workers s ! i))) (wfile (workers s ! i))
         (outputPath fl) (format fl) (quality fl) (deleteOriginal fl) = (acts, ex)"
      by (cases "convertHeic (calls en (wfile (workers s ! i))) (wfile (workers s ! i))
         (outputPath fl) (format fl) (quality fl) (deleteOriginal fl)")
    show ?thesis
    proof (cases ex)
      case ReachesRelease
      with assms i nf W_Body c show ?thesis
        by (intro body [of acts]) (auto simp: worker_step_def)
    next
      case ReturnsEarly
      with assms i nf W_Body c show ?thesis
        by (intro early [of acts]) (auto simp: worker_step_def)
    qed
  next
    case W_Release
    with assms i nf show ?thesis
      by (intro release) (auto simp: worker_step_def split: if_splits)
  next
    case W_Finished
    with assms i nf show ?thesis by (simp add: worker_step_def)
  qed
qed

lemma worker_step_frame:
  assumes "worker_step en fl i s = Some s'"
  shows "mpc s' = mpc s \<and> files s' = files s \<and> start_closed s' = start_closed s \<and>
    jobs s' = jobs s \<and> length (workers s') = length (workers s)"
  using assms by (cases rule: worker_step_cases) (simp_all add: frame_simps)

text \<open>The trace only grows.\<close>

lemma trace_mono_worker:
  assumes "worker_step en fl i s = Some s'"
  shows "set (trace s) \<subseteq> set (trace s')"
  using assms by (cases rule: worker_step_cases) (auto simp: frame_simps)

text \<open>The body of a worker prints, writes and removes, and does nothing else.\<close>

lemma convertHeic_io: "a \<in> set (fst (convertHeic x f out fmt q del)) \<Longrightarrow> is_io a"
  by (auto simp: convertHeic_def decode_and_save_def saveJPEG_def savePNG_def
        delete_original_def is_io_def
      split: option.splits if_splits prod.splits bool.splits)

subsection \<open>Counting in lists\<close>

lemma count_update:
  "i < length xs \<Longrightarrow>
   length (filter P (xs[i := y])) + (if P (xs ! i) then 1 else 0) =
   length (filter P xs) + (if P y then 1 else 0)"
proof (induction xs arbitrary: i)
  case Nil
  then show ?case by simp
next
  case (Cons x xs)
  then show ?case by (cases i) auto
qed

lemma filter_length_mono:
  "(\<And>x. P x \<Longrightarrow> Q x) \<Longrightarrow> length (filter P xs) \<le> length (filter Q xs)"
  by (induction xs) auto

section \<open>The invariants hold in every reachable state\<close>

subsection \<open>Slots\<close>

lemma slot_worker:
  assumes inv: "slot_inv en s" and st: "worker_step en fl i s = Some s'"
  shows "slot_inv en s'"
  using st
proof (cases rule: worker_step_cases)
  case reserve
  then have i: "i < length (pcs s)" and o: "\<not> holds_slot (pcs s ! i)"
    by (simp_all add: length_pcs pcs_nth holds_slot_def)
  from count_update [OF i, of holds_slot W_AwaitStart] o
  have "length (filter holds_slot ((pcs s)[i := W_AwaitStart]))
          = length (filter holds_slot (pcs s)) + 1"
    by (simp add: holds_slot_def)
  with inv reserve show ?thesis by (simp add: slot_inv_def frame_simps)
next
  case start
  then have i: "i < length (pcs s)" and o: "holds_slot (pcs s ! i)"
    by (simp_all add: length_pcs pcs_nth holds_slot_def)
  from count_update [OF i, of holds_slot W_Body] o
  have "length (filter holds_slot ((pcs s)[i := W_Body])) = length (filter holds_slot (pcs s))"
    by (simp add: holds_slot_def)
  with inv start show ?thesis by (simp add: slot_inv_def frame_simps)
next
  case (body acts)
  then have i: "i < length (pcs s)" and o: "holds_slot (pcs s ! i)"
    by (simp_all add: length_pcs pcs_nth holds_slot_def)
  from count_update [OF i, of holds_slot W_Release] o
  have "length (filter holds_slot ((pcs s)[i := W_Release])) = length (filter holds_slot (pcs s))"
    by (simp add: holds_slot_def)
  with inv body show ?thesis by (simp add: slot_inv_def frame_simps)
next
  case (early acts)
  then have i: "i < length (pcs s)" and o: "holds_slot (pcs s ! i)"
    by (simp_all add: length_pcs pcs_nth holds_slot_def)
  from count_update [OF i, of holds_slot W_Finished] o
  have "length (filter holds_slot ((pcs s)[i := W_Finished])) + 1
          = length (filter holds_slot (pcs s))"
    by (simp add: holds_slot_def)
  with inv early show ?thesis by (auto simp: slot_inv_def frame_simps)
next
  case release
  then have i: "i < length (pcs s)" and o: "holds_slot (pcs s ! i)"
    by (simp_all add: length_pcs pcs_nth holds_slot_def)
  from count_update [OF i, of holds_slot W_Finished] o
  have "length (filter holds_slot ((pcs s)[i := W_Finished])) + 1
          = length (filter holds_slot (pcs s))"
    by (simp add: holds_slot_def)
  with inv release show ?thesis by (auto simp: slot_inv_def frame_simps)
qed

lemma slot_main:
  assumes inv: "slot_inv en s" and st: "main_step en fl s = Some s'"
  shows "slot_inv en s'"
  using assms
  by (cases "mpc s")
     (auto simp: main_step_def main_begin_def slot_inv_def emit_def spawn_def pcs_def holds_slot_def
        split: if_splits list.splits prod.splits)

lemma slot_run:
  assumes "run en fl sched init = Some s"
  shows "slot_inv en s"
proof (rule run_invariant [where I = "slot_inv en", OF _ _ assms])
  show "slot_inv en init" by (simp add: slot_inv_def init_def pcs_def)
next
  fix s t s' assume "slot_inv en s" "step en fl t s = Some s'"
  then show "slot_inv en s'" by (cases t) (auto intro: slot_main slot_worker)
qed

subsection \<open>Launching, program points and reservations\<close>

lemma launch_worker:
  assumes "launch_inv en fl s" and "worker_step en fl i s = Some s'"
  shows "launch_inv en fl s'"
  using assms(1) worker_step_frame [OF assms(2)] by (cases "mpc s") (simp_all add: launch_inv_def)

lemma launch_main:
  assumes "launch_inv en fl s" and "main_step en fl s = Some s'"
  shows "launch_inv en fl s'"
  using assms
  by (cases "mpc s")
     (auto simp: main_step_def main_begin_def launch_inv_def emit_def spawn_def jobs_def job_list_def
        split: if_splits list.splits prod.splits)

lemma pc_main:
  assumes "launch_inv en fl s" and "pc_inv fl s" and "main_step en fl s = Some s'"
  shows "pc_inv fl s'"
  using assms
  by (cases "mpc s")
     (auto simp: main_step_def main_begin_def launch_inv_def pc_inv_def emit_def spawn_def pcs_def
        in_body_def split: if_splits list.splits prod.splits)

lemma pc_worker:
  assumes inv: "pc_inv fl s" and st: "worker_step en fl i s = Some s'"
  shows "pc_inv fl s'"
  using st
proof (cases rule: worker_step_cases)
  case reserve
  with inv show ?thesis
    by (auto simp: pc_inv_def frame_simps in_body_def dest!: set_update_subset_insert [THEN subsetD])
next
  case start
  with inv show ?thesis
    by (auto simp: pc_inv_def frame_simps in_body_def dest!: set_update_subset_insert [THEN subsetD])
next
  case (body acts)
  then have "pcs s ! i = W_Body" and "i < length (pcs s)" by (simp_all add: pcs_nth length_pcs)
  then have "W_Body \<in> set (pcs s)" by (metis nth_mem)
  with inv have "start_closed s" by (auto simp: pc_inv_def in_body_def)
  with body inv show ?thesis
    by (auto simp: pc_inv_def frame_simps in_body_def dest!: set_update_subset_insert [THEN subsetD])
next
  case (early acts)
  with inv show ?thesis
    by (auto simp: pc_inv_def frame_simps in_body_def dest!: set_update_subset_insert [THEN subsetD])
next
  case release
  with inv show ?thesis
    by (auto simp: pc_inv_def frame_simps in_body_def dest!: set_update_subset_insert [THEN subsetD])
qed

lemma reserve_main:
  assumes "launch_inv en fl s" and "reserve_inv fl s" and "main_step en fl s = Some s'"
  shows "reserve_inv fl s'"
  using assms
  by (cases "mpc s")
     (auto simp: main_step_def main_begin_def launch_inv_def reserve_inv_def emit_def spawn_def
        nth_append split: if_splits list.splits prod.splits)

lemma reserve_worker:
  assumes inv: "reserve_inv fl s" and st: "worker_step en fl i s = Some s'"
  shows "reserve_inv fl s'"
proof -
  note m = trace_mono_worker [OF st, THEN subsetD]
  have f: "mpc s' = mpc s" "length (workers s') = length (workers s)"
    using worker_step_frame [OF st] by simp_all
  have main: "(MainT, Reserve) \<in> set (trace s')"
    if "inputFile fl \<noteq> []" "mpc s \<noteq> M_Begin" "mpc s \<noteq> M_SingleAdd" "mpc s \<noteq> M_SingleReserve"
    using that inv m by (simp add: reserve_inv_def)
  have w: "(WorkerT j, Reserve) \<in> set (trace s')"
    if d: "inputFile fl = []" and j: "j < length (workers s)"
      and nr: "wpc (workers s' ! j) \<noteq> W_Reserve" for j
  proof (cases "j = i")
    case False
    from st j False have "wpc (workers s' ! j) = wpc (workers s ! j)"
      by (cases rule: worker_step_cases) (simp_all add: frame_simps workers_set_wpc_nth)
    with nr d j inv m show ?thesis by (simp add: reserve_inv_def)
  next
    case True
    from st show ?thesis
    proof (cases rule: worker_step_cases)
      case reserve
      then show ?thesis using True by (simp add: frame_simps)
    next
      case start
      with inv d m True show ?thesis by (simp add: reserve_inv_def)
    next
      case (body acts)
      with inv d m True show ?thesis by (simp add: reserve_inv_def)
    next
      case (early acts)
      with inv d m True show ?thesis by (simp add: reserve_inv_def)
    next
      case release
      with inv d m True show ?thesis by (simp add: reserve_inv_def)
    qed
  qed
  from main w show ?thesis by (simp add: reserve_inv_def f)
qed

lemma coord_run:
  assumes "run en fl sched init = Some s"
  shows "launch_inv en fl s \<and> pc_inv fl s \<and> reserve_inv fl s"
proof (rule run_invariant
    [where I = "\<lambda>s. launch_inv en fl s \<and> pc_inv fl s \<and> reserve_inv fl s", OF _ _ assms])
  show "launch_inv en fl init \<and> pc_inv fl init \<and> reserve_inv fl init"
    by (simp add: launch_inv_def pc_inv_def reserve_inv_def init_def pcs_def jobs_def)
next
  fix s t s'
  assume "launch_inv en fl s \<and> pc_inv fl s \<and> reserve_inv fl s" "step en fl t s = Some s'"
  then show "launch_inv en fl s' \<and> pc_inv fl s' \<and> reserve_inv fl s'"
    by (cases t) (auto intro: launch_main launch_worker pc_main pc_worker reserve_main reserve_worker)
qed

lemma started_closed:
  "launch_inv en fl s \<Longrightarrow> start_closed s \<Longrightarrow> jobs s = job_list en fl \<and> files s = []"
  by (cases "mpc s") (simp_all add: launch_inv_def)

subsection \<open>What the trace holds\<close>



lemma nowalk_step:
  assumes "nowalk_inv fl s" and "step en fl t s = Some s'"
  shows "nowalk_inv fl s'"
proof (cases t)
  case MainT
  with assms show ?thesis
    by (cases "mpc s")
       (auto simp: main_step_def main_begin_def nowalk_inv_def emit_def spawn_def
          split: if_splits list.splits prod.splits)
next
  case (WorkerT i)
  with assms have st: "worker_step en fl i s = Some s'" by simp
  have io: "\<not> is_io (FilepathWalk p)" for p by (simp add: is_io_def)
  from st show ?thesis
  proof (cases rule: worker_step_cases)
    case reserve
    with assms(1) show ?thesis by (auto simp: nowalk_inv_def frame_simps)
  next
    case start
    with assms(1) show ?thesis by (auto simp: nowalk_inv_def frame_simps)
  next
    case (body acts)
    from body(3) have "\<forall>a\<in>set acts. is_io a" using convertHeic_io by (metis fst_conv)
    with io body assms(1) show ?thesis by (auto simp: nowalk_inv_def frame_simps)
  next
    case (early acts)
    from early(3) have "\<forall>a\<in>set acts. is_io a" using convertHeic_io by (metis fst_conv)
    with io early assms(1) show ?thesis by (auto simp: nowalk_inv_def frame_simps)
  next
    case release
    with assms(1) show ?thesis by (auto simp: nowalk_inv_def frame_simps)
  qed
qed

lemma nowalk_run:
  assumes "run en fl sched init = Some s"
  shows "nowalk_inv fl s"
proof (rule run_invariant [where I = "nowalk_inv fl", OF _ _ assms])
  show "nowalk_inv fl init" by (simp add: nowalk_inv_def init_def)
qed (rule nowalk_step)

section \<open>The walk stops at the first failure\<close>


section \<open>Slot release (claim C1)\<close>

text \<open>
  For when a worker returns early.  The body ends with the early return exactly when
  the context cannot be created, the file cannot be read, there is no primary image,
  or everything was decoded and the format is neither \<^verbatim>\<open>jpeg\<close> nor \<^verbatim>\<open>png\<close>.
\<close>

lemma convertHeic_returns_early_iff:
  "snd (convertHeic x file out fmt q del) = ReturnsEarly \<longleftrightarrow>
     NewContext x \<noteq> None \<or> ReadFromFile x \<noteq> None \<or> GetPrimaryImageHandle x \<noteq> None \<or>
     (DecodeImage x = None \<and> GetImage x = None \<and> fmt \<noteq> ''jpeg'' \<and> fmt \<noteq> ''png'')"
  by (auto simp: convertHeic_def decode_and_save_def split: option.splits)

text \<open>
  Claim C1: once a job's slot is acquired it is released exactly once when the worker
  finishes, on every exit path, so that at the end of the run the number of releases
  equals the number of jobs.

  The code does not do this.  In single-file mode, with one CPU and a source file
  that \<^verbatim>\<open>ReadFromFile\<close> rejects, the run below is complete (\<^verbatim>\<open>main\<close> has returned
  from \<^verbatim>\<open>wg.Wait()\<close>): there is one job, its slot was reserved once, it was never
  released, and the channel still holds the element.  The worker returned in line 88;
  the receive of line 128 is not deferred.
\<close>

theorem slot_not_released_on_early_return:
  "map_option mpc (run (host 1 (File ''a.heic'') read_fails) (cli ''a.heic'' [] ''jpeg'')
      single_early init) = Some M_Finished
   \<and> map_option jobs (run (host 1 (File ''a.heic'') read_fails) (cli ''a.heic'' [] ''jpeg'')
      single_early init) = Some [''a.heic'']
   \<and> map_option (count_action Reserve) (run (host 1 (File ''a.heic'') read_fails)
      (cli ''a.heic'' [] ''jpeg'') single_early init) = Some 1
   \<and> map_option (count_action Release) (run (host 1 (File ''a.heic'') read_fails)
      (cli ''a.heic'' [] ''jpeg'') single_early init) = Some 0
   \<and> map_option done_len (run (host 1 (File ''a.heic'') read_fails) (cli ''a.heic'' [] ''jpeg'')
      single_early init) = Some 1"
  by code_simp

text \<open>
  What the lost slot does to the other jobs.  With one CPU, two source files in the
  directory and the format \<^verbatim>\<open>gif\<close>, the first worker decodes its file, returns in
  line 116 and keeps the only slot.  The second worker then stands at its send for
  ever, \<^verbatim>\<open>main\<close> stands in \<^verbatim>\<open>wg.Wait()\<close> for ever, and no goroutine can take a
  step.
\<close>

lemma lost_slot_blocks_the_next_job:
  "map_option mpc (run (host 1 two_files_tree all_succeed) (cli [] ''d'' ''gif'')
      first_returns_early init) = Some M_Wait
   \<and> map_option pcs (run (host 1 two_files_tree all_succeed) (cli [] ''d'' ''gif'')
      first_returns_early init) = Some [W_Finished, W_Reserve]
   \<and> map_option (actions_of (WorkerT 0)) (run (host 1 two_files_tree all_succeed)
      (cli [] ''d'' ''gif'') first_returns_early init)
       = Some [Reserve, Printf (ConvertingFile ''d/a.heic''), Printf (UnsupportedFormat ''gif'')]
   \<and> map_option mpc (run (host 1 two_files_tree all_succeed) (cli [] ''d'' ''gif'')
      (first_returns_early @ [MainT]) init) = None
   \<and> map_option mpc (run (host 1 two_files_tree all_succeed) (cli [] ''d'' ''gif'')
      (first_returns_early @ [WorkerT 0]) init) = None
   \<and> map_option mpc (run (host 1 two_files_tree all_succeed) (cli [] ''d'' ''gif'')
      (first_returns_early @ [WorkerT 1]) init) = None"
  by code_simp

section \<open>Deleting the original (claim C2)\<close>

text \<open>
  Claim C2: with the delete flag set, the source file is deleted only when the
  conversion succeeded; when decoding, retrieving the raster, encoding or writing
  fails, the job halts there and the source file is not deleted.

  The code does not do this.  When \<^verbatim>\<open>DecodeImage\<close> fails, line 99 prints and control
  falls through to line 120: the source file is removed although nothing was written.
  The same happens when \<^verbatim>\<open>os.WriteFile\<close> fails inside \<^verbatim>\<open>saveJPEG\<close>, which returns
  nothing to its caller.
\<close>

theorem source_deleted_after_failed_conversion:
  "convertHeic decode_fails ''a.heic'' [] ''jpeg'' 80 True =
     ([Printf (ConvertingFile ''a.heic''), Printf (CouldNotDecodeImage ''bad data''),
       OsRemove ''a.heic'' None, Printf (DeletedOriginal ''a.heic'')], ReachesRelease)
   \<and> convertHeic write_fails ''a.heic'' [] ''jpeg'' 80 True =
     ([Printf (ConvertingFile ''a.heic''),
       OsWriteFile ''a_heic.jpg'' (Some ''read-only file system''),
       Printf (CouldNotSaveJPEG ''a_heic.jpg'' ''read-only file system''),
       OsRemove ''a.heic'' None, Printf (DeletedOriginal ''a.heic'')], ReachesRelease)"
  by (simp add: convertHeic_def decode_and_save_def delete_original_def saveJPEG_def
      outFilename_def decode_fails_def write_fails_def all_succeed_def)

section \<open>A walk that fails (claim C3)\<close>




section \<open>Reservation, launch and the start signal (claim C4)\<close>

text \<open>
  Claim C4: each job's slot is reserved before that job's worker is launched, and the
  start signal fires only after all jobs have been launched and all their slots have
  been reserved; no reservation can still be pending when it fires.

  This holds in single-file mode only.  In directory mode the send on \<^verbatim>\<open>done\<close> is
  the first statement of the goroutine (line 181), so the worker is launched first.
  With one source file in the directory and \<^verbatim>\<open>main\<close> running alone up to line 189,
  \<^verbatim>\<open>start\<close> is closed while the only worker still stands at its send and nobody has
  reserved a slot.
\<close>

theorem start_closed_with_reservation_pending:
  "map_option start_closed
      (run (host 1 denied_tree all_succeed) (cli [] ''d'' ''jpeg'') to_barrier init) = Some True
   \<and> map_option pcs
      (run (host 1 denied_tree all_succeed) (cli [] ''d'' ''jpeg'') to_barrier init)
       = Some [W_Reserve]
   \<and> map_option (count_action Reserve)
      (run (host 1 denied_tree all_succeed) (cli [] ''d'' ''jpeg'') to_barrier init) = Some 0"
  by code_simp

text \<open>
  Claim C4, amended: the start signal fires only after all jobs have been launched.
  In single-file mode the slot is reserved by \<^verbatim>\<open>main\<close> before the worker is launched,
  so no worker ever has a reservation pending.  In directory mode each worker is
  launched first and reserves its own slot as its first statement: a worker that is
  past that statement has reserved, but reservations may still be pending when the
  start signal fires.  In both modes a worker is past the start signal only after it
  has fired.
\<close>

theorem launch_reserve_start_order:
  assumes "run en fl sched init = Some s"
  shows "(start_closed s \<longrightarrow> jobs s = job_list en fl \<and> files s = [])
       \<and> (inputFile fl \<noteq> [] \<longrightarrow>
            W_Reserve \<notin> set (pcs s) \<and> (workers s \<noteq> [] \<longrightarrow> (MainT, Reserve) \<in> set (trace s)))
       \<and> (inputFile fl = [] \<longrightarrow>
            (\<forall>i<length (workers s). wpc (workers s ! i) \<noteq> W_Reserve \<longrightarrow>
               (WorkerT i, Reserve) \<in> set (trace s)))
       \<and> (\<forall>pc\<in>set (pcs s). in_body pc \<longrightarrow> start_closed s)"
proof -
  from coord_run [OF assms] have l: "launch_inv en fl s" and p: "pc_inv fl s"
    and r: "reserve_inv fl s" by simp_all
  from l have a: "start_closed s \<longrightarrow> jobs s = job_list en fl \<and> files s = []"
    using started_closed by blast
  from l r have b: "inputFile fl \<noteq> [] \<longrightarrow> workers s \<noteq> [] \<longrightarrow> (MainT, Reserve) \<in> set (trace s)"
    by (cases "mpc s") (auto simp: launch_inv_def reserve_inv_def jobs_def)
  from a b p r show ?thesis by (simp add: pc_inv_def reserve_inv_def)
qed

text \<open>
  The amended claim in both modes, at a state in which the one worker is in its body:
  a directory with one source file, and a single file.
\<close>

theorem launch_reserve_start_order_witness:
  "(\<exists>s. run (host 1 denied_tree all_succeed) (cli [] ''d'' ''jpeg'') into_body init = Some s
        \<and> start_closed s \<and> jobs s = [''d/a.heic''] \<and> files s = []
        \<and> pcs s = [W_Body] \<and> (WorkerT 0, Reserve) \<in> set (trace s))
   \<and> (\<exists>s. run (host 1 (File ''a.heic'') all_succeed) (cli ''a.heic'' [] ''jpeg'') into_body init
          = Some s
        \<and> start_closed s \<and> jobs s = [''a.heic''] \<and> files s = []
        \<and> pcs s = [W_Release] \<and> W_Reserve \<notin> set (pcs s) \<and> (MainT, Reserve) \<in> set (trace s))"
proof
  let ?en = "host 1 denied_tree all_succeed" and ?fl = "cli [] ''d'' ''jpeg''"
  have "map_option start_closed (run ?en ?fl into_body init) = Some True"
    and "map_option pcs (run ?en ?fl into_body init) = Some [W_Body]"
    by code_simp+
  then obtain s where s: "run ?en ?fl into_body init = Some s"
    and c: "start_closed s" and p: "pcs s = [W_Body]"
    by auto
  have j: "job_list ?en ?fl = [''d/a.heic'']" by code_simp
  have d: "inputFile ?fl = []" by (simp add: cli_def)
  from p have w: "length (workers s) = 1" "wpc (workers s ! 0) = W_Body"
    by (auto simp: pcs_def)
  from launch_reserve_start_order [OF s] c j d w
  have "jobs s = [''d/a.heic''] \<and> files s = [] \<and> (WorkerT 0, Reserve) \<in> set (trace s)"
    by simp
  with s c p
  show "\<exists>s. run ?en ?fl into_body init = Some s
        \<and> start_closed s \<and> jobs s = [''d/a.heic''] \<and> files s = []
        \<and> pcs s = [W_Body] \<and> (WorkerT 0, Reserve) \<in> set (trace s)"
    by blast
next
  let ?en = "host 1 (File ''a.heic'') all_succeed" and ?fl = "cli ''a.heic'' [] ''jpeg''"
  have "map_option start_closed (run ?en ?fl into_body init) = Some True"
    and "map_option pcs (run ?en ?fl into_body init) = Some [W_Release]"
    by code_simp+
  then obtain s where s: "run ?en ?fl into_body init = Some s"
    and c: "start_closed s" and p: "pcs s = [W_Release]"
    by auto
  have j: "job_list ?en ?fl = [''a.heic'']" by code_simp
  have d: "inputFile ?fl \<noteq> []" by (simp add: cli_def)
  from p have w: "workers s \<noteq> []" by (auto simp: pcs_def)
  from launch_reserve_start_order [OF s] c j d w
  have "jobs s = [''a.heic''] \<and> files s = [] \<and> W_Reserve \<notin> set (pcs s)
        \<and> (MainT, Reserve) \<in> set (trace s)"
    by simp
  with s c p
  show "\<exists>s. run ?en ?fl into_body init = Some s
        \<and> start_closed s \<and> jobs s = [''a.heic''] \<and> files s = []
        \<and> pcs s = [W_Release] \<and> W_Reserve \<notin> set (pcs s) \<and> (MainT, Reserve) \<in> set (trace s)"
    by blast
qed

section \<open>What the discoverer returns (claim C5)\<close>

text \<open>
  Claim C5: the discoverer returns exactly the files under the directory whose
  extension is that of the source format, compared without regard to case, and
  nothing else: no file of another extension and no entry that is not a file.

  The code does not do this.  The callback never looks at \<^verbatim>\<open>info.IsDir()\<close>, and
  \<^verbatim>\<open>filepath.Walk\<close> calls it on directories too.  In \<open>album_tree\<close> the subdirectory
  \<^verbatim>\<open>album.heic\<close> is returned next to the file \<^verbatim>\<open>a.HEIC\<close>; the files \<^verbatim>\<open>b.txt\<close> and
  \<^verbatim>\<open>c.txt\<close> are left out, as they should be.
\<close>

theorem directory_named_like_source_is_returned:
  "FindHeicFiles ''d'' album_tree = ([''d/a.HEIC'', ''d/album.heic''], None)"
  by code_simp

section \<open>The output path (claims C6 and C7)\<close>

text \<open>
  Claim C6: with no explicit output path, the output path is derived next to the
  source file by replacing the first extension separator of the source file's name
  with an underscore and appending \<^verbatim>\<open>.jpg\<close> or \<^verbatim>\<open>.png\<close>; the source file stays in
  place when the delete flag is off.

  The code replaces the first dot of the whole path (line 103), not of the file's
  name; the branch for an explicit output path takes \<^verbatim>\<open>filepath.Base\<close> first (line
  105).  For the source \<^verbatim>\<open>./a.heic\<close> the output goes to \<^verbatim>\<open>_/a.heic.png\<close>, in another
  directory, where the claim has \<^verbatim>\<open>./a_heic.png\<close>.
\<close>

theorem in_place_output_replaces_first_dot_of_path:
  "outFilename ''./a.heic'' [] = ''_/a.heic''
   \<and> convertHeic all_succeed ''./a.heic'' [] ''png'' 80 False =
     ([Printf (ConvertingFile ''./a.heic''), OsWriteFile ''_/a.heic.png'' None,
       Printf (SavedAs ''_/a.heic.png'')], ReachesRelease)"
  by (simp add: convertHeic_def decode_and_save_def delete_original_def savePNG_def
      outFilename_def all_succeed_def)

text \<open>
  Claim C7: with an explicit output path, the output path is the source file's base
  name (extension separator replaced) joined under that directory; in single-file
  mode the flag names the output file, in batch mode the output directory.

  The code prepends the flag's value to the transformed base name with no separator
  (line 106), in both modes.  With \<^verbatim>\<open>--input_file input.heic --output_path output.jpg\<close>
  the file written is \<^verbatim>\<open>output.jpginput_heic.jpg\<close>, not \<^verbatim>\<open>output.jpg\<close>; with the
  output directory \<^verbatim>\<open>./converted\<close> the file \<^verbatim>\<open>images/a.heic\<close> is written to
  \<^verbatim>\<open>./converteda_heic.png\<close>, not to \<^verbatim>\<open>./converted/a_heic.png\<close>.
\<close>

theorem output_path_is_prepended_without_separator:
  "convertHeic all_succeed ''input.heic'' ''output.jpg'' ''jpeg'' 90 False =
     ([Printf (ConvertingFile ''input.heic''), OsWriteFile ''output.jpginput_heic.jpg'' None,
       Printf (SavedAs ''output.jpginput_heic.jpg'')], ReachesRelease)
   \<and> convertHeic all_succeed ''images/a.heic'' ''./converted'' ''png'' 80 False =
     ([Printf (ConvertingFile ''images/a.heic''), OsWriteFile ''./converteda_heic.png'' None,
       Printf (SavedAs ''./converteda_heic.png'')], ReachesRelease)"
  by (simp add: convertHeic_def decode_and_save_def delete_original_def savePNG_def saveJPEG_def
      outFilename_def all_succeed_def Base_def last_element_def strip_trailing_sep_def)

section \<open>The bound on concurrency (claim C8)\<close>

text \<open>
  Claim C8: at no instant of a run, for any number of jobs and with the bound equal to
  the host's CPU count, are more than that many workers past the start signal and
  before the release of their slot.

  Every state a run can reach, under every schedule, every command line and every
  behaviour of the external calls, has at most \<open>NumCPU\<close> workers in their body.
\<close>

theorem executing_le_NumCPU:
  assumes "run en fl sched init = Some s"
  shows "executing s \<le> NumCPU en"
proof -
  have "executing s \<le> length (filter holds_slot (pcs s))"
    unfolding executing_def by (rule filter_length_mono) (auto simp: in_body_def holds_slot_def)
  with slot_run [OF assms] show ?thesis by (simp add: slot_inv_def split: if_splits)
qed

text \<open>One CPU, one job in a directory, and the state in which its worker is in the body.\<close>

theorem executing_le_NumCPU_witness:
  "\<exists>s. run (host 1 denied_tree all_succeed) (cli [] ''d'' ''jpeg'') into_body init = Some s
       \<and> executing s = 1 \<and> NumCPU (host 1 denied_tree all_succeed) = 1
       \<and> executing s \<le> NumCPU (host 1 denied_tree all_succeed)"
proof -
  let ?en = "host 1 denied_tree all_succeed" and ?fl = "cli [] ''d'' ''jpeg''"
  have "map_option executing (run ?en ?fl into_body init) = Some 1"
    by code_simp
  then obtain s where s: "run ?en ?fl into_body init = Some s" and e: "executing s = 1"
    by auto
  have "NumCPU ?en = 1" by (simp add: host_def)
  with executing_le_NumCPU [OF s] s e show ?thesis by blast
qed

section \<open>An unsupported format (claim C9)\<close>




section \<open>Precedence of the single file (claim C10)\<close>

text \<open>
  Claim C10: when both \<^verbatim>\<open>--input_file\<close> and \<^verbatim>\<open>--input_dir\<close> are given, only the
  single file is converted; the directory is never scanned and no directory-mode job
  is created.

  Whenever \<^verbatim>\<open>--input_file\<close> is not empty, whatever \<^verbatim>\<open>--input_dir\<close> is: no state of
  a run has a walk in its trace, a file left to range over, or a worker at the send
  of line 181; the launched jobs are none or the single file, and once \<^verbatim>\<open>start\<close> is
  closed they are the single file.
\<close>

theorem input_file_takes_precedence:
  assumes "inputFile fl \<noteq> []" and "run en fl sched init = Some s"
  shows "(\<forall>t p. (t, FilepathWalk p) \<notin> set (trace s)) \<and> files s = [] \<and> W_Reserve \<notin> set (pcs s)
       \<and> (jobs s = [] \<or> jobs s = [inputFile fl])
       \<and> (start_closed s \<longrightarrow> jobs s = [inputFile fl])"
proof -
  from coord_run [OF assms(2)] have l: "launch_inv en fl s" and p: "pc_inv fl s" by simp_all
  from nowalk_run [OF assms(2)] assms(1) have "\<forall>t p. (t, FilepathWalk p) \<notin> set (trace s)"
    by (simp add: nowalk_inv_def)
  moreover from l assms(1) have "files s = [] \<and> (jobs s = [] \<or> jobs s = [inputFile fl])
       \<and> (start_closed s \<longrightarrow> jobs s = [inputFile fl])"
    by (cases "mpc s") (simp_all add: launch_inv_def job_list_def)
  moreover from p assms(1) have "W_Reserve \<notin> set (pcs s)" by (simp add: pc_inv_def)
  ultimately show ?thesis by simp
qed

text \<open>
  Both flags given, the directory holding source files of its own: after a complete
  run the only job is the single file.
\<close>

theorem input_file_takes_precedence_witness:
  "\<exists>s. run (host 1 denied_tree all_succeed) (cli ''x.heic'' ''d'' ''jpeg'') single_complete init
         = Some s
       \<and> inputFile (cli ''x.heic'' ''d'' ''jpeg'') \<noteq> [] \<and> inputDir (cli ''x.heic'' ''d'' ''jpeg'') \<noteq> []
       \<and> mpc s = M_Finished \<and> start_closed s \<and> jobs s = [''x.heic''] \<and> files s = []
       \<and> (\<forall>t p. (t, FilepathWalk p) \<notin> set (trace s))"
proof -
  let ?en = "host 1 denied_tree all_succeed" and ?fl = "cli ''x.heic'' ''d'' ''jpeg''"
  have "map_option mpc (run ?en ?fl single_complete init) = Some M_Finished"
    and "map_option start_closed (run ?en ?fl single_complete init) = Some True"
    by code_simp+
  then obtain s where s: "run ?en ?fl single_complete init = Some s"
    and m: "mpc s = M_Finished" and c: "start_closed s"
    by auto
  have f: "inputFile ?fl \<noteq> []" "inputFile ?fl = ''x.heic''" and d: "inputDir ?fl \<noteq> []"
    by (simp_all add: cli_def)
  from input_file_takes_precedence [OF f(1) s] c f(2)
  have "jobs s = [''x.heic''] \<and> files s = [] \<and> (\<forall>t p. (t, FilepathWalk p) \<notin> set (trace s))"
    by simp
  with s m c f(1) d show ?thesis by blast
qed

end
